theory Spec2Isabelle
  imports Main "HOL-Library.AList"
begin

section \<open>Path joining\<close>

text \<open>
  The program composes paths with \<^verbatim>\<open>os.path.join\<close> of the Python standard library.
  On a POSIX system this is \<^verbatim>\<open>posixpath.join\<close>:
  \<^verbatim>\<open>
  def join(a, *p):
      sep = '/'
      path = a
      for b in p:
          if b.startswith(sep):
              path = b
          elif not path or path.endswith(sep):
              path += b
          else:
              path += sep + b
      return path
  \<close>
  The definitions below follow this text: \<open>join_step\<close> is the loop body, \<open>join\<close> the loop.
\<close>

definition sep :: string where
  "sep = ''/''"

definition startswith :: "string \<Rightarrow> string \<Rightarrow> bool" where
  "startswith s pre = (take (length pre) s = pre)"

definition endswith :: "string \<Rightarrow> string \<Rightarrow> bool" where
  "endswith s suf = (length suf \<le> length s \<and> drop (length s - length suf) s = suf)"

definition join_step :: "string \<Rightarrow> string \<Rightarrow> string" where
  "join_step path b =
     (if startswith b sep then b
      else if path = [] \<or> endswith path sep then path @ b
      else path @ sep @ b)"

definition join :: "string \<Rightarrow> string list \<Rightarrow> string" where
  "join a p = foldl join_step a p"


section \<open>Nodes and the object store\<close>

text \<open>
  A \<^verbatim>\<open>FileTree\<close> object is identified by a reference. Its \<^verbatim>\<open>parent\<close> attribute holds
  either a string (the node is a root) or another \<^verbatim>\<open>FileTree\<close>; the program tells the two
  apart with \<^verbatim>\<open>isinstance(self.parent, str)\<close>.

  The dictionaries \<^verbatim>\<open>files\<close> and \<^verbatim>\<open>children\<close> keep insertion order, and the program
  iterates over them, so they are association lists with distinct keys; an item
  assignment \<^verbatim>\<open>d[k] = v\<close> is \<open>AList.update k v\<close> (an existing key keeps its place, a new
  key goes to the end). The attribute \<^verbatim>\<open>children\<close> is absent (\<open>None\<close>) on an object whose
  constructor did not assign it; reading it then raises \<^verbatim>\<open>AttributeError\<close>.
  The constructor keeps the dictionary it is given for \<^verbatim>\<open>files\<close>; the store holds its
  value (no property below is about a dictionary shared between two nodes).
\<close>

type_synonym ref = nat

datatype parent_link = PathStr string | NodeRef ref

record node =
  parent :: parent_link
  name :: string
  children :: "(string \<times> ref) list option"
  files :: "(string \<times> string) list"

text \<open>
  The store maps every reference to the object it denotes; \<open>next_ref\<close> is the next
  unused reference, and \<open>warnings\<close> is the log of \<^verbatim>\<open>warnings.warn\<close> calls.
\<close>

record store =
  nodes :: "ref \<Rightarrow> node"
  next_ref :: ref
  warnings :: "string list"

datatype error =
    AttributeError string
  | TypeError string
  | FileNotFoundError string
  | FileExistsError string
  | NotADirectoryError string
  | IsADirectoryError string
  | KeyError string
  | PathNotExists string error

section \<open>Path resolution and root lookup\<close>

text \<open>
  \<^verbatim>\<open>__get_path_recursive\<close>, \<^verbatim>\<open>get_root_path\<close> and \<^verbatim>\<open>get_root\<close> walk up the parent links.
  On a cyclic chain of parents the walk never reaches a root; the result \<open>None\<close> stands
  for that (the interpreter's bound on the recursion depth is not modelled: the stack
  is unbounded).
\<close>

partial_function (option) get_path_recursive :: "store \<Rightarrow> ref \<Rightarrow> string \<Rightarrow> string option" where
  "get_path_recursive s self path =
     (case parent (nodes s self) of
        PathStr p \<Rightarrow> Some (join p [name (nodes s self), path])
      | NodeRef q \<Rightarrow> get_path_recursive s q (join (name (nodes s self)) [path]))"

definition get_path :: "store \<Rightarrow> ref \<Rightarrow> string option" where
  "get_path s self = get_path_recursive s self []"

partial_function (option) get_root_path :: "store \<Rightarrow> ref \<Rightarrow> string option" where
  "get_root_path s self =
     (case parent (nodes s self) of
        NodeRef q \<Rightarrow> get_root_path s q
      | PathStr p \<Rightarrow> Some p)"

partial_function (option) get_root :: "store \<Rightarrow> ref \<Rightarrow> ref option" where
  "get_root s self =
     (case parent (nodes s self) of
        PathStr p \<Rightarrow> Some self
      | NodeRef q \<Rightarrow> get_root s q)"

section \<open>Lookups\<close>

definition get_file_content :: "store \<Rightarrow> ref \<Rightarrow> string \<Rightarrow> string option" where
  "get_file_content s self file_name = map_of (files (nodes s self)) file_name"

text \<open>
  \<^verbatim>\<open>get_file_path\<close> returns \<^verbatim>\<open>None\<close> for a name that is not registered and the joined
  path otherwise: the inner option is Python's \<^verbatim>\<open>Optional[str]\<close>, the outer one is
  \<open>None\<close> when \<^verbatim>\<open>get_path\<close> does not return.
\<close>

definition get_file_path :: "store \<Rightarrow> ref \<Rightarrow> string \<Rightarrow> string option option" where
  "get_file_path s self file_name =
     (case map_of (files (nodes s self)) file_name of
        None \<Rightarrow> Some None
      | Some file_item \<Rightarrow>
          (case get_path s self of
             None \<Rightarrow> None
           | Some dir \<Rightarrow> Some (Some (join dir [file_name]))))"

definition get_child :: "store \<Rightarrow> ref \<Rightarrow> string \<Rightarrow> error + ref option" where
  "get_child s self nm =
     (case children (nodes s self) of
        None \<Rightarrow> Inl (AttributeError ''children'')
      | Some cs \<Rightarrow> Inr (map_of cs nm))"


section \<open>The operating system\<close>

text \<open>
  The program reaches the file system through \<^verbatim>\<open>os.mkdir\<close>, \<^verbatim>\<open>open(path, "w")\<close> followed by
  \<^verbatim>\<open>write\<close>, and \<^verbatim>\<open>os.path.exists\<close>. They are not code of this repository, so the
  operations are a parameter of the model: an operation takes the state of the file
  system and returns the exception it raised or a normal result, with the state it
  left behind.
\<close>

type_synonym ('a, 'st) result = "(error + 'a) \<times> 'st"

record 'fs os_iface =
  os_mkdir :: "string \<Rightarrow> 'fs \<Rightarrow> (unit, 'fs) result"
  os_write :: "string \<Rightarrow> string \<Rightarrow> string \<Rightarrow> 'fs \<Rightarrow> (unit, 'fs) result"
  os_path_exists :: "string \<Rightarrow> 'fs \<Rightarrow> bool"

text \<open>
  \<open>os_write path encoding content\<close> stands for
  \<^verbatim>\<open>with open(path, "w", encoding=encoding) as f: f.write(content)\<close>.
\<close>

section \<open>Mutation\<close>



definition allocate :: "node \<Rightarrow> store \<Rightarrow> ref \<times> store" where
  "allocate nd s =
     (next_ref s, s\<lparr>nodes := (nodes s)(next_ref s := nd), next_ref := Suc (next_ref s)\<rparr>)"

text \<open>
  \<open>init_plain\<close> is the constructor \<^verbatim>\<open>__init__\<close> on the path it takes when \<^verbatim>\<open>children\<close> is
  \<^verbatim>\<open>None\<close>, after the check of the root path: all four attributes are assigned.
  \<^verbatim>\<open>add_child\<close> calls the constructor as \<^verbatim>\<open>FileTree(c, self)\<close>, where the parent is a node
  and no warning can be issued.
\<close>

definition init_plain :: "string \<Rightarrow> parent_link \<Rightarrow> (string \<times> string) list option \<Rightarrow> store \<Rightarrow> ref \<times> store" where
  "init_plain nm par files_arg s =
     allocate \<lparr>parent = par, name = nm, children = Some [],
               files = (case files_arg of None \<Rightarrow> [] | Some d \<Rightarrow> d)\<rparr> s"

datatype child_arg = ChildName string | ChildNode ref

text \<open>
  One round of the loop of \<^verbatim>\<open>add_child\<close>. In \<^verbatim>\<open>self.children[c] = FileTree(c, self)\<close> the
  right-hand side is evaluated first, then \<^verbatim>\<open>self.children\<close> is read.
\<close>

fun add_child_step :: "ref \<Rightarrow> child_arg \<Rightarrow> store \<Rightarrow> (unit, store) result" where
  "add_child_step self (ChildName c) s =
     (case init_plain c (NodeRef self) None s of (r, s1) \<Rightarrow>
        (case children (nodes s1 self) of
           None \<Rightarrow> (Inl (AttributeError ''children''), s1)
         | Some cs \<Rightarrow>
             (Inr (), s1\<lparr>nodes := (nodes s1)(self := (nodes s1 self)
                \<lparr>children := Some (AList.update c r cs)\<rparr>)\<rparr>)))"
| "add_child_step self (ChildNode c) s =
     (let s1 = s\<lparr>nodes := (nodes s)(c := (nodes s c)\<lparr>parent := NodeRef self\<rparr>)\<rparr> in
        (case children (nodes s1 self) of
           None \<Rightarrow> (Inl (AttributeError ''children''), s1)
         | Some cs \<Rightarrow>
             (Inr (), s1\<lparr>nodes := (nodes s1)(self := (nodes s1 self)
                \<lparr>children := Some (AList.update (name (nodes s1 c)) c cs)\<rparr>)\<rparr>)))"

fun add_child :: "ref \<Rightarrow> child_arg list \<Rightarrow> store \<Rightarrow> (unit, store) result" where
  "add_child self [] s = (Inr (), s)"
| "add_child self (c # rest) s =
     (case add_child_step self c s of
        (Inl e, s1) \<Rightarrow> (Inl e, s1)
      | (Inr u, s1) \<Rightarrow> add_child self rest s1)"

text \<open>
  The constructor \<^verbatim>\<open>__init__\<close> (\<open>init\<close>). \<^verbatim>\<open>self.add_child(*children)\<close> unpacks its argument: a string is
  unpacked into its characters, each passed as a name of its own, and a \<^verbatim>\<open>FileTree\<close>
  is not iterable, so the call raises \<^verbatim>\<open>TypeError\<close>. When \<^verbatim>\<open>children\<close> is given, the
  attribute \<^verbatim>\<open>children\<close> has not been assigned when \<^verbatim>\<open>add_child\<close> runs, and it is not
  assigned afterwards either. The attribute \<^verbatim>\<open>files\<close> is assigned last; an object
  whose constructor raised is not returned to the caller, and the store keeps it with
  an empty \<open>files\<close>.
\<close>

definition warn_root :: "'fs os_iface \<Rightarrow> 'fs \<Rightarrow> parent_link \<Rightarrow> store \<Rightarrow> store" where
  "warn_root os fs par s =
     (case par of
        PathStr p \<Rightarrow>
          if \<not> os_path_exists os p fs
          then s\<lparr>warnings := warnings s @ [''Root node root path not exists: '' @ p]\<rparr>
          else s
      | NodeRef q \<Rightarrow> s)"

definition init ::
  "'fs os_iface \<Rightarrow> 'fs \<Rightarrow> string \<Rightarrow> parent_link \<Rightarrow> (string \<times> string) list option \<Rightarrow>
     child_arg option \<Rightarrow> store \<Rightarrow> (ref, store) result" where
  "init os fs nm par files_arg children_arg s =
     (let s0 = warn_root os fs par s;
          files_or_empty = (case files_arg of None \<Rightarrow> [] | Some d \<Rightarrow> d)
      in case allocate \<lparr>parent = par, name = nm, children = None, files = []\<rparr> s0 of
        (self, s1) \<Rightarrow>
          (case children_arg of
             None \<Rightarrow>
               (Inr self, s1\<lparr>nodes := (nodes s1)(self := (nodes s1 self)
                  \<lparr>children := Some [], files := files_or_empty\<rparr>)\<rparr>)
           | Some (ChildNode c) \<Rightarrow> (Inl (TypeError ''argument after * must be an iterable''), s1)
           | Some (ChildName str) \<Rightarrow>
               (case add_child self (map (\<lambda>ch. ChildName [ch]) str) s1 of
                  (Inl e, s2) \<Rightarrow> (Inl e, s2)
                | (Inr u, s2) \<Rightarrow>
                    (Inr self, s2\<lparr>nodes := (nodes s2)(self := (nodes s2 self)
                       \<lparr>files := files_or_empty\<rparr>)\<rparr>))))"

section \<open>Materialisation\<close>

text \<open>
  \<^verbatim>\<open>create_file\<close>: the test \<^verbatim>\<open>not file_path\<close> holds for \<^verbatim>\<open>None\<close> and for the empty string.
  Any exception of the write is caught and \<^verbatim>\<open>PathNotExists(message, e)\<close> is raised in its
  handler, so the new exception carries the caught one as its second argument (and as
  its context). The message calls \<^verbatim>\<open>get_path\<close> again. The lookup
  \<^verbatim>\<open>self.files[file_name]\<close> stands in the \<^verbatim>\<open>try\<close> block; it cannot fail, since
  \<^verbatim>\<open>get_file_path\<close> has just found the name.
\<close>

definition create_file ::
  "'fs os_iface \<Rightarrow> store \<Rightarrow> ref \<Rightarrow> string \<Rightarrow> string \<Rightarrow> 'fs \<Rightarrow> (unit, 'fs) result option" where
  "create_file os s self file_name encoding fs =
     (let not_found = FileNotFoundError
            (''Virtual file '' @ file_name @ '' not found from node '' @ name (nodes s self))
      in case get_file_path s self file_name of
        None \<Rightarrow> None
      | Some None \<Rightarrow> Some (Inl not_found, fs)
      | Some (Some file_path) \<Rightarrow>
          if file_path = [] then Some (Inl not_found, fs)
          else
            (case (case map_of (files (nodes s self)) file_name of
                     None \<Rightarrow> (Inl (KeyError file_name), fs)
                   | Some content \<Rightarrow> os_write os file_path encoding content fs) of
               (Inr u, fs1) \<Rightarrow> Some (Inr (), fs1)
             | (Inl e, fs1) \<Rightarrow>
                 (case get_path s self of
                    None \<Rightarrow> None
                  | Some d \<Rightarrow>
                      Some (Inl (PathNotExists (''Maybe path '' @ d @ '' not exists'') e), fs1))))"

text \<open>
  A \<^verbatim>\<open>for\<close> loop whose body may raise: the first exception ends the loop, with the
  file system as the body left it.
\<close>

fun for_each ::
  "('a \<Rightarrow> 'fs \<Rightarrow> (unit, 'fs) result option) \<Rightarrow> 'a list \<Rightarrow> 'fs \<Rightarrow> (unit, 'fs) result option" where
  "for_each body [] fs = Some (Inr (), fs)"
| "for_each body (x # xs) fs =
     (case body x fs of
        None \<Rightarrow> None
      | Some (Inl e, fs1) \<Rightarrow> Some (Inl e, fs1)
      | Some (Inr u, fs1) \<Rightarrow> for_each body xs fs1)"

text \<open>
  \<^verbatim>\<open>__mkdir__\<close> (\<open>mkdir_rec\<close>) and \<^verbatim>\<open>__mkTree__\<close> (\<open>mkTree_rec\<close>) recurse along the
  \<^verbatim>\<open>children\<close> dictionaries, which can be cyclic or deeper than any bound, so the
  recursion takes fuel: the first argument bounds the depth of the calls, and \<open>None\<close>
  means that the fuel ran out (or that \<^verbatim>\<open>get_path\<close> did not return). \<^verbatim>\<open>mkTree\<close> writes
  every file with the default encoding of \<^verbatim>\<open>create_file\<close>.
\<close>

primrec mkdir_rec :: "nat \<Rightarrow> 'fs os_iface \<Rightarrow> store \<Rightarrow> ref \<Rightarrow> 'fs \<Rightarrow> (unit, 'fs) result option" where
  "mkdir_rec 0 os s self fs = None"
| "mkdir_rec (Suc k) os s self fs =
     (case get_path s self of
        None \<Rightarrow> None
      | Some d \<Rightarrow>
          (case os_mkdir os d fs of
             (Inl e, fs1) \<Rightarrow> Some (Inl e, fs1)
           | (Inr u, fs1) \<Rightarrow>
               (case children (nodes s self) of
                  None \<Rightarrow> Some (Inl (AttributeError ''children''), fs1)
                | Some cs \<Rightarrow> for_each (mkdir_rec k os s) (map snd cs) fs1)))"

definition mkdir :: "nat \<Rightarrow> 'fs os_iface \<Rightarrow> store \<Rightarrow> ref \<Rightarrow> 'fs \<Rightarrow> (unit, 'fs) result option" where
  "mkdir k os s self fs =
     (case get_root s self of
        None \<Rightarrow> None
      | Some r \<Rightarrow> mkdir_rec k os s r fs)"

primrec mkTree_rec :: "nat \<Rightarrow> 'fs os_iface \<Rightarrow> store \<Rightarrow> ref \<Rightarrow> 'fs \<Rightarrow> (unit, 'fs) result option" where
  "mkTree_rec 0 os s self fs = None"
| "mkTree_rec (Suc k) os s self fs =
     (case get_path s self of
        None \<Rightarrow> None
      | Some d \<Rightarrow>
          (case os_mkdir os d fs of
             (Inl e, fs1) \<Rightarrow> Some (Inl e, fs1)
           | (Inr u, fs1) \<Rightarrow>
               (case for_each (\<lambda>file_name. create_file os s self file_name ''utf-8'')
                       (map fst (files (nodes s self))) fs1 of
                  None \<Rightarrow> None
                | Some (Inl e, fs2) \<Rightarrow> Some (Inl e, fs2)
                | Some (Inr u, fs2) \<Rightarrow>
                    (case children (nodes s self) of
                       None \<Rightarrow> Some (Inl (AttributeError ''children''), fs2)
                     | Some cs \<Rightarrow> for_each (mkTree_rec k os s) (map snd cs) fs2))))"

definition mkTree :: "nat \<Rightarrow> 'fs os_iface \<Rightarrow> store \<Rightarrow> ref \<Rightarrow> 'fs \<Rightarrow> (unit, 'fs) result option" where
  "mkTree k os s self fs =
     (case get_root s self of
        None \<Rightarrow> None
      | Some r \<Rightarrow> mkTree_rec k os s r fs)"


section \<open>A file system\<close>

text \<open>
  A file system to run the program on: directories and regular files, named by the
  list of the components of their path. It has no links, no permissions and no
  special names (\<^verbatim>\<open>.\<close> and \<^verbatim>\<open>..\<close> are names like any other), the working directory is
  the root, and every text can be encoded. \<open>split_sep\<close> is \<^verbatim>\<open>path.split('/')\<close>.
\<close>

record filesystem =
  fs_dirs :: "string list set"
  fs_files :: "string list \<Rightarrow> string option"

fun split_sep :: "string \<Rightarrow> string list" where
  "split_sep [] = [[]]"
| "split_sep (c # cs) =
     (if c = CHR ''/'' then [] # split_sep cs
      else (case split_sep cs of w # ws \<Rightarrow> (c # w) # ws | [] \<Rightarrow> [[c]]))"

definition components :: "string \<Rightarrow> string list" where
  "components p = filter (\<lambda>w. w \<noteq> []) (split_sep p)"

definition is_dir :: "filesystem \<Rightarrow> string list \<Rightarrow> bool" where
  "is_dir fs c = (c = [] \<or> c \<in> fs_dirs fs)"

definition is_file :: "filesystem \<Rightarrow> string list \<Rightarrow> bool" where
  "is_file fs c = (fs_files fs c \<noteq> None)"

definition posix_path_exists :: "string \<Rightarrow> filesystem \<Rightarrow> bool" where
  "posix_path_exists p fs = (p \<noteq> [] \<and> (is_dir fs (components p) \<or> is_file fs (components p)))"

definition posix_mkdir :: "string \<Rightarrow> filesystem \<Rightarrow> (unit, filesystem) result" where
  "posix_mkdir p fs =
     (let c = components p in
      if p = [] then (Inl (FileNotFoundError p), fs)
      else if is_dir fs c \<or> is_file fs c then (Inl (FileExistsError p), fs)
      else if is_file fs (butlast c) then (Inl (NotADirectoryError p), fs)
      else if \<not> is_dir fs (butlast c) then (Inl (FileNotFoundError p), fs)
      else (Inr (), fs\<lparr>fs_dirs := insert c (fs_dirs fs)\<rparr>))"

definition posix_write :: "string \<Rightarrow> string \<Rightarrow> string \<Rightarrow> filesystem \<Rightarrow> (unit, filesystem) result" where
  "posix_write p encoding content fs =
     (let c = components p in
      if p = [] then (Inl (FileNotFoundError p), fs)
      else if c = [] then (Inl (IsADirectoryError p), fs)
      else if is_file fs (butlast c) then (Inl (NotADirectoryError p), fs)
      else if \<not> is_dir fs (butlast c) then (Inl (FileNotFoundError p), fs)
      else if is_dir fs c then (Inl (IsADirectoryError p), fs)
      else if endswith p sep then
        (Inl (if is_file fs c then NotADirectoryError p else IsADirectoryError p), fs)
      else (Inr (), fs\<lparr>fs_files := (fs_files fs)(c := Some content)\<rparr>))"

definition posix :: "filesystem os_iface" where
  "posix = \<lparr>os_mkdir = posix_mkdir, os_write = posix_write, os_path_exists = posix_path_exists\<rparr>"


section \<open>Chains of parents, trees of children\<close>

text \<open>
  \<open>parent_chain s [c, \<dots>, b, a, root] p\<close>: each node of the list has the next one as its
  parent, and the last one is a root over the path \<open>p\<close>.
\<close>

fun parent_chain :: "store \<Rightarrow> ref list \<Rightarrow> string \<Rightarrow> bool" where
  "parent_chain s [] p = False"
| "parent_chain s [r] p = (parent (nodes s r) = PathStr p)"
| "parent_chain s (c # b # rest) p =
     (parent (nodes s c) = NodeRef b \<and> parent_chain s (b # rest) p)"

text \<open>
  The shape of a tree in the store: \<open>wf_tree s par t\<close> holds when the root of \<open>t\<close> has the
  parent \<open>par\<close>, its \<^verbatim>\<open>children\<close> dictionary lists the roots of the subtrees of \<open>t\<close> in
  order, and each subtree is such a tree below it.
\<close>

datatype ntree = NTree ref "ntree list"

fun tree_root :: "ntree \<Rightarrow> ref" where
  "tree_root (NTree r ts) = r"

fun tree_nodes :: "ntree \<Rightarrow> ref list" where
  "tree_nodes (NTree r ts) = r # concat (map tree_nodes ts)"

fun height :: "ntree \<Rightarrow> nat" where
  "height (NTree r ts) = Suc (foldr max (map height ts) 0)"

fun wf_tree :: "store \<Rightarrow> parent_link \<Rightarrow> ntree \<Rightarrow> bool" where
  "wf_tree s par (NTree r ts) =
     (parent (nodes s r) = par \<and>
      (case children (nodes s r) of
         None \<Rightarrow> False
       | Some cs \<Rightarrow> map snd cs = map tree_root ts \<and> list_all (wf_tree s (NodeRef r)) ts))"

section \<open>The traversal as the specification words it\<close>

text \<open>
  The specification of \<^verbatim>\<open>mkTree\<close>: from the true root, create the directory of the node,
  then call the single-file creation for every registered file, then recurse into the
  children; fail and halt on the first error, with no rollback. \<open>spec_actions\<close> lists
  the steps of that traversal in order, and \<open>run_actions\<close> performs a list of steps
  until one of them fails.
\<close>

datatype action = MkDir ref | CreateFile ref string

fun action_node :: "action \<Rightarrow> ref" where
  "action_node (MkDir r) = r"
| "action_node (CreateFile r file_name) = r"

fun spec_actions :: "store \<Rightarrow> ntree \<Rightarrow> action list" where
  "spec_actions s (NTree r ts) =
     MkDir r # map (CreateFile r) (map fst (files (nodes s r))) @ concat (map (spec_actions s) ts)"

fun run_action :: "'fs os_iface \<Rightarrow> store \<Rightarrow> action \<Rightarrow> 'fs \<Rightarrow> (unit, 'fs) result option" where
  "run_action os s (MkDir r) fs =
     (case get_path s r of None \<Rightarrow> None | Some d \<Rightarrow> Some (os_mkdir os d fs))"
| "run_action os s (CreateFile r file_name) fs = create_file os s r file_name ''utf-8'' fs"

fun run_actions :: "'fs os_iface \<Rightarrow> store \<Rightarrow> action list \<Rightarrow> 'fs \<Rightarrow> (unit, 'fs) result option" where
  "run_actions os s [] fs = Some (Inr (), fs)"
| "run_actions os s (a # as) fs =
     (case run_action os s a fs of
        None \<Rightarrow> None
      | Some (Inl e, fs1) \<Rightarrow> Some (Inl e, fs1)
      | Some (Inr u, fs1) \<Rightarrow> run_actions os s as fs1)"

text \<open>
  What \<^verbatim>\<open>os.mkdir\<close> promises about a path that exists: it raises \<^verbatim>\<open>FileExistsError\<close> and
  changes nothing; a directory it has created exists, and it removes nothing.
\<close>

definition mkdir_exclusive :: "'fs os_iface \<Rightarrow> bool" where
  "mkdir_exclusive os =
     (\<forall>p fs.
        (os_path_exists os p fs \<longrightarrow> os_mkdir os p fs = (Inl (FileExistsError p), fs)) \<and>
        (\<forall>fs1. os_mkdir os p fs = (Inr (), fs1) \<longrightarrow>
           os_path_exists os p fs1 \<and>
           (\<forall>q. os_path_exists os q fs \<longrightarrow> os_path_exists os q fs1)))"


section \<open>Example stores\<close>

definition blank :: node where
  "blank = \<lparr>parent = PathStr [], name = [], children = None, files = []\<rparr>"

definition empty_store :: store where
  "empty_store = \<lparr>nodes = (\<lambda>r. blank), next_ref = 0, warnings = []\<rparr>"

text \<open>
  A root \<^verbatim>\<open>a\<close> over \<^verbatim>\<open>/r\<close> with the file \<^verbatim>\<open>f\<close> and the child \<^verbatim>\<open>b\<close>, whose child \<^verbatim>\<open>c\<close> holds the
  file \<^verbatim>\<open>g\<close>.
\<close>

definition example_tree :: store where
  "example_tree =
     \<lparr>nodes = (\<lambda>r. blank)
        (0 := \<lparr>parent = PathStr ''/r'', name = ''a'', children = Some [(''b'', 1)],
               files = [(''f'', ''x'')]\<rparr>,
         1 := \<lparr>parent = NodeRef 0, name = ''b'', children = Some [(''c'', 2)], files = []\<rparr>,
         2 := \<lparr>parent = NodeRef 1, name = ''c'', children = Some [], files = [(''g'', ''y'')]\<rparr>),
      next_ref = 3, warnings = []\<rparr>"

text \<open>The same nodes with \<^verbatim>\<open>b\<close> and \<^verbatim>\<open>c\<close> both children of \<^verbatim>\<open>a\<close>.\<close>

definition example_flat :: store where
  "example_flat =
     \<lparr>nodes = (\<lambda>r. blank)
        (0 := \<lparr>parent = PathStr ''/r'', name = ''a'', children = Some [(''b'', 1), (''c'', 2)],
               files = [(''f'', ''x'')]\<rparr>,
         1 := \<lparr>parent = NodeRef 0, name = ''b'', children = Some [], files = []\<rparr>,
         2 := \<lparr>parent = NodeRef 0, name = ''c'', children = Some [], files = [(''g'', ''y'')]\<rparr>),
      next_ref = 3, warnings = []\<rparr>"

text \<open>A root \<^verbatim>\<open>a\<close> over \<^verbatim>\<open>/r\<close> that holds a file and a child of the same name \<^verbatim>\<open>b\<close>.\<close>

definition example_clash :: store where
  "example_clash =
     \<lparr>nodes = (\<lambda>r. blank)
        (0 := \<lparr>parent = PathStr ''/r'', name = ''a'', children = Some [(''b'', 1)],
               files = [(''b'', ''x'')]\<rparr>,
         1 := \<lparr>parent = NodeRef 0, name = ''b'', children = Some [], files = []\<rparr>),
      next_ref = 2, warnings = []\<rparr>"

text \<open>A root whose path and name are both empty.\<close>

definition example_empty :: store where
  "example_empty =
     \<lparr>nodes = (\<lambda>r. blank)
        (0 := \<lparr>parent = PathStr [], name = [], children = Some [], files = [(''f'', ''x'')]\<rparr>),
      next_ref = 1, warnings = []\<rparr>"

text \<open>A file system that holds the directory \<^verbatim>\<open>/r\<close> and nothing else.\<close>

definition example_fs :: filesystem where
  "example_fs = \<lparr>fs_dirs = {[''r'']}, fs_files = (\<lambda>c. None)\<rparr>"


section \<open>Properties of path joining\<close>

lemma startswith_sep: "startswith b ''/'' = (b \<noteq> [] \<and> hd b = CHR ''/'')"
  by (cases b) (auto simp: startswith_def)

lemma endswith_sep: "endswith p ''/'' = (p \<noteq> [] \<and> last p = CHR ''/'')"
proof (cases p rule: rev_cases)
  case Nil
  then show ?thesis by (simp add: endswith_def)
next
  case (snoc ys y)
  then show ?thesis by (auto simp: endswith_def)
qed

lemmas path_simps = join_step_def sep_def startswith_sep endswith_sep

lemma join_step_absorb: "join_step (join_step y []) c = join_step y c"
  by (cases c) (auto simp: path_simps)

lemma join_step_abs: "startswith c sep \<Longrightarrow> join_step a c = c"
  by (simp add: join_step_def)

lemma join_step_Nil_left: "join_step [] c = c"
  by (simp add: join_step_def)

text \<open>Joining is associative, so the segments of a path can be joined in any grouping.\<close>

lemma join_step_assoc: "join_step a (join_step b c) = join_step (join_step a b) c"
proof (cases "startswith c sep")
  case True
  then show ?thesis by (simp add: join_step_abs)
next
  case c: False
  show ?thesis
  proof (cases "b = []")
    case True
    then show ?thesis by (simp add: join_step_Nil_left join_step_absorb)
  next
    case b: False
    show ?thesis
    proof (cases "startswith b sep")
      case True
      with b have "startswith (join_step b c) sep"
        by (cases b) (simp_all add: path_simps)
      with True show ?thesis by (simp add: join_step_abs)
    next
      case False
      with b c show ?thesis
        by (cases b) (simp_all add: path_simps)
    qed
  qed
qed

section \<open>Properties of path resolution\<close>

text \<open>
  Whenever \<^verbatim>\<open>__get_path_recursive\<close> returns, it returns for every suffix, and its result
  is a fixed prefix joined with the suffix.
\<close>

lemma get_path_recursive_shape:
  "get_path_recursive s n path = Some r \<Longrightarrow>
     \<exists>y. (\<forall>path'. get_path_recursive s n path' = Some (join_step y path')) \<and> r = join_step y path"
proof (induction rule: get_path_recursive.raw_induct[rotated 1, consumes 1])
  case (1 grp s n path r)
  show ?case
  proof (cases "parent (nodes s n)")
    case (PathStr p)
    have a: "\<forall>path'. get_path_recursive s n path' =
        Some (join_step (join_step p (name (nodes s n))) path')"
      by (subst get_path_recursive.simps) (simp add: PathStr join_def)
    from 1(2) PathStr have b: "r = join_step (join_step p (name (nodes s n))) path"
      by (simp add: join_def)
    show ?thesis by (rule exI, rule conjI, rule a, rule b)
  next
    case (NodeRef q)
    with 1(2) have "grp s q (join (name (nodes s n)) [path]) = Some r" by simp
    from 1(1)[OF this] obtain y where
      y: "\<And>path'. get_path_recursive s q path' = Some (join_step y path')"
      and r: "r = join_step y (join (name (nodes s n)) [path])" by auto
    have a: "\<forall>path'. get_path_recursive s n path' =
        Some (join_step (join_step y (name (nodes s n))) path')"
      by (subst get_path_recursive.simps) (simp add: NodeRef y join_def join_step_assoc)
    from r have b: "r = join_step (join_step y (name (nodes s n))) path"
      by (simp add: join_def join_step_assoc)
    show ?thesis by (rule exI, rule conjI, rule a, rule b)
  qed
qed

text \<open>On a node that is its own parent the walk does not return.\<close>

lemma get_path_recursive_self_loop:
  assumes "parent (nodes s n) = NodeRef n"
  shows "get_path_recursive s n path = None"
proof (rule ccontr)
  assume "get_path_recursive s n path \<noteq> None"
  then obtain r where r: "get_path_recursive s n path = Some r" by auto
  have "get_path_recursive s0 n0 path0 = Some r0 \<Longrightarrow> s0 = s \<Longrightarrow> n0 = n \<Longrightarrow> False"
    for s0 n0 path0 r0
  proof (induction rule: get_path_recursive.raw_induct[rotated 1, consumes 1])
    case (1 grp s0 n0 path0 r0)
    from 1(2,3,4) assms have "grp s n (join (name (nodes s n)) [path0]) = Some r0" by simp
    from 1(1)[OF this] show ?case by simp
  qed
  from this[OF r] show False by simp
qed

lemma get_path_root:
  "parent (nodes s n) = PathStr p \<Longrightarrow> get_path s n = Some (join p [name (nodes s n), []])"
  unfolding get_path_def by (subst get_path_recursive.simps) simp

lemma get_path_interior:
  assumes "parent (nodes s n) = NodeRef q"
  shows "get_path s n = map_option (\<lambda>d. join d [name (nodes s n), []]) (get_path s q)"
proof (cases "get_path s q")
  case None
  have "get_path s n = None"
  proof (rule ccontr)
    assume "get_path s n \<noteq> None"
    then obtain r where "get_path_recursive s n [] = Some r" by (auto simp: get_path_def)
    then have "get_path_recursive s q (join (name (nodes s n)) [[]]) = Some r"
      by (subst (asm) get_path_recursive.simps) (simp add: assms)
    from get_path_recursive_shape[OF this] None show False by (auto simp: get_path_def)
  qed
  with None show ?thesis by simp
next
  case (Some d)
  then have "get_path_recursive s q [] = Some d" by (simp add: get_path_def)
  from get_path_recursive_shape[OF this] obtain y where
    y: "\<And>path'. get_path_recursive s q path' = Some (join_step y path')"
    and d: "d = join_step y []" by auto
  have "get_path s n = Some (join_step y (join_step (name (nodes s n)) []))"
    unfolding get_path_def by (subst get_path_recursive.simps) (simp add: assms y join_def)
  with Some d show ?thesis by (simp add: join_def join_step_assoc join_step_absorb)
qed

lemma parent_chain_path:
  "parent_chain s ch p \<Longrightarrow>
     get_path_recursive s (hd ch) path =
       Some (join p (map (\<lambda>r. name (nodes s r)) (rev ch) @ [path]))"
proof (induction s ch p arbitrary: path rule: parent_chain.induct)
  case (1 s p)
  then show ?case by simp
next
  case (2 s r p)
  then show ?case by (subst get_path_recursive.simps) (simp add: join_def)
next
  case (3 s c b rest p)
  from 3(2) have par: "parent (nodes s c) = NodeRef b" and ch: "parent_chain s (b # rest) p"
    by simp_all
  have ih: "\<And>path'. get_path_recursive s b path' =
      Some (join p (map (\<lambda>r. name (nodes s r)) (rev (b # rest)) @ [path']))"
    using 3(1)[OF ch] by simp
  show ?case
    by (subst get_path_recursive.simps) (simp add: par ih join_def join_step_assoc)
qed

lemma parent_chain_root:
  "parent_chain s ch p \<Longrightarrow>
     get_root s (hd ch) = Some (last ch) \<and> get_root_path s (hd ch) = Some p"
proof (induction s ch p rule: parent_chain.induct)
  case (1 s p)
  then show ?case by simp
next
  case (2 s r p)
  then show ?case by (simp add: get_root.simps get_root_path.simps)
next
  case (3 s c b rest p)
  from 3(2) have par: "parent (nodes s c) = NodeRef b" and ch: "parent_chain s (b # rest) p"
    by simp_all
  from 3(1)[OF ch] have "get_root s b = Some (last (b # rest))" "get_root_path s b = Some p"
    by simp_all
  then show ?case
    by (simp add: get_root.simps[of s c] get_root_path.simps[of s c] par)
qed

lemma example_tree_nodes:
  "nodes example_tree 0 = \<lparr>parent = PathStr ''/r'', name = ''a'',
     children = Some [(''b'', 1)], files = [(''f'', ''x'')]\<rparr>"
  "nodes example_tree (Suc 0) = \<lparr>parent = NodeRef 0, name = ''b'',
     children = Some [(''c'', 2)], files = []\<rparr>"
  "nodes example_tree 2 = \<lparr>parent = NodeRef 1, name = ''c'',
     children = Some [], files = [(''g'', ''y'')]\<rparr>"
  by (simp_all add: example_tree_def)

lemma example_tree_chain: "parent_chain example_tree [2, 1, 0] ''/r''"
  by (simp add: example_tree_nodes)

section \<open>The path of a node and the path of its parent\<close>




section \<open>Root lookup\<close>

text \<open>
  Claim C6. Along a chain of parents of any length that ends in a root, \<^verbatim>\<open>get_root\<close>
  returns that root and \<^verbatim>\<open>get_root_path\<close> returns its raw path; on a root, \<^verbatim>\<open>get_root\<close>
  returns the root itself.
\<close>

theorem C6_get_root_chain:
  "(parent_chain s ch p \<longrightarrow>
      get_root s (hd ch) = Some (last ch) \<and> get_root_path s (hd ch) = Some p) \<and>
   (parent (nodes s n) = PathStr p \<longrightarrow> get_root s n = Some n)"
proof -
  have "parent (nodes s n) = PathStr p \<Longrightarrow> get_root s n = Some n"
    using parent_chain_root[of s "[n]" p] by simp
  with parent_chain_root show ?thesis by blast
qed

theorem C6_get_root_chain_witness:
  "parent_chain example_tree [2, 1, 0] ''/r'' \<and>
   get_root example_tree 2 = Some 0 \<and> get_root_path example_tree 2 = Some ''/r'' \<and>
   parent (nodes example_tree 0) = PathStr ''/r'' \<and> get_root example_tree 0 = Some 0"
proof -
  note c = example_tree_chain
  have r: "parent (nodes example_tree 0) = PathStr ''/r''"
    by (simp add: example_tree_nodes)
  from C6_get_root_chain[of example_tree "[2, 1, 0]" "''/r''"] c
  have "get_root example_tree (hd [2, 1, 0]) = Some (last [2, 1, 0]) \<and>
    get_root_path example_tree (hd [2, 1, 0]) = Some ''/r''" by blast
  then have a: "get_root example_tree 2 = Some 0 \<and> get_root_path example_tree 2 = Some ''/r''"
    by simp
  from C6_get_root_chain[of example_tree _ "''/r''" 0] r
  have b: "get_root example_tree 0 = Some 0" by blast
  from c a r b show ?thesis by blast
qed


section \<open>The trailing separator\<close>

lemma join_step_eq_Nil: "join_step a b = [] \<longleftrightarrow> a = [] \<and> b = []"
  by (cases b) (auto simp: path_simps)

lemma get_path_recursive_empty:
  "get_path_recursive s n path = Some r \<Longrightarrow> r = [] \<Longrightarrow>
     path = [] \<and> name (nodes s n) = [] \<and> get_root_path s n = Some []"
proof (induction rule: get_path_recursive.raw_induct[rotated 1, consumes 1])
  case (1 grp s n path r)
  show ?case
  proof (cases "parent (nodes s n)")
    case (PathStr p)
    with 1(2,3) have "join_step (join_step p (name (nodes s n))) path = []"
      by (simp add: join_def)
    then have "p = [] \<and> name (nodes s n) = [] \<and> path = []"
      by (simp add: join_step_eq_Nil)
    with PathStr show ?thesis by (simp add: get_root_path.simps[of s n])
  next
    case (NodeRef q)
    with 1(2) have "grp s q (join (name (nodes s n)) [path]) = Some r" by simp
    from 1(1)[OF this 1(3)] have "join (name (nodes s n)) [path] = []" "get_root_path s q = Some []"
      by simp_all
    with NodeRef show ?thesis
      by (simp add: join_def join_step_eq_Nil get_root_path.simps[of s n])
  qed
qed

lemma get_path_ends_with_sep:
  assumes "get_path s n = Some d" "d \<noteq> []"
  shows "endswith d sep"
proof -
  from assms(1) have "get_path_recursive s n [] = Some d" by (simp add: get_path_def)
  from get_path_recursive_shape[OF this] obtain y where "d = join_step y []" by auto
  with assms(2) show ?thesis by (auto simp: path_simps split: if_splits)
qed

lemma join_to_dir:
  "d = [] \<or> endswith d sep \<Longrightarrow> join d [f] = (if startswith f sep then f else d @ f)"
  by (auto simp: join_def join_step_def)

lemma example_empty_node:
  "nodes example_empty 0 = \<lparr>parent = PathStr [], name = [], children = Some [], files = [(''f'', ''x'')]\<rparr>"
  by (simp add: example_empty_def)

lemma example_tree_path2: "get_path example_tree 2 = Some ''/r/a/b/c/''"
  using parent_chain_path[OF example_tree_chain, of "[]"]
  by (simp add: get_path_def example_tree_nodes join_def path_simps)

text \<open>
  Claim C10, as amended. A path that \<^verbatim>\<open>get_path\<close> returns ends with the separator unless
  it is the empty string, which happens only when the name of the node and the raw root
  path are both empty. For a registered file whose name does not begin with the
  separator, \<^verbatim>\<open>get_file_path\<close> is that path directly followed by the file name: the join
  adds no separator of its own. (A file name that begins with the separator replaces
  the directory path.)
\<close>

theorem C10_get_path_trailing_sep:
  assumes "get_path s n = Some d"
  shows "(d \<noteq> [] \<longrightarrow> endswith d sep) \<and>
         (d = [] \<longrightarrow> name (nodes s n) = [] \<and> get_root_path s n = Some []) \<and>
         (map_of (files (nodes s n)) f = Some c \<longrightarrow>
            get_file_path s n f = Some (Some (if startswith f sep then f else d @ f)))"
proof -
  have a: "d \<noteq> [] \<longrightarrow> endswith d sep"
    using get_path_ends_with_sep[OF assms] by blast
  have b: "d = [] \<longrightarrow> name (nodes s n) = [] \<and> get_root_path s n = Some []"
    using get_path_recursive_empty[of s n "[]" d] assms by (simp add: get_path_def)
  from a have "d = [] \<or> endswith d sep" by blast
  from join_to_dir[OF this]
  have c: "map_of (files (nodes s n)) f = Some c \<longrightarrow>
            get_file_path s n f = Some (Some (if startswith f sep then f else d @ f))"
    by (simp add: get_file_path_def assms)
  from a b c show ?thesis by blast
qed

theorem C10_get_path_trailing_sep_witness:
  "get_path example_tree 2 = Some ''/r/a/b/c/'' \<and> ''/r/a/b/c/'' \<noteq> [] \<and> endswith ''/r/a/b/c/'' sep \<and>
   map_of (files (nodes example_tree 2)) ''g'' = Some ''y'' \<and>
   get_file_path example_tree 2 ''g'' = Some (Some ''/r/a/b/c/g'') \<and>
   get_path example_empty 0 = Some [] \<and> name (nodes example_empty 0) = [] \<and>
   get_root_path example_empty 0 = Some []"
proof -
  note p = example_tree_path2
  have f: "map_of (files (nodes example_tree 2)) ''g'' = Some ''y''"
    by (simp add: example_tree_nodes)
  have e: "get_path example_empty 0 = Some []"
    by (simp add: get_path_root example_empty_node join_def path_simps)
  from C10_get_path_trailing_sep[OF p, of "''g''" "''y''"] f
  have 1: "endswith ''/r/a/b/c/'' sep" and
    "get_file_path example_tree 2 ''g'' = Some (Some (if startswith ''g'' sep then ''g'' else ''/r/a/b/c/'' @ ''g''))"
    by simp_all
  then have 2: "get_file_path example_tree 2 ''g'' = Some (Some ''/r/a/b/c/g'')"
    by (simp add: path_simps)
  from C10_get_path_trailing_sep[OF e]
  have 3: "name (nodes example_empty 0) = [] \<and> get_root_path example_empty 0 = Some []" by blast
  from p f e 1 2 3 show ?thesis by simp
qed

text \<open>
  Claim C10 as stated fails for a root whose raw path and name are both empty: its path
  is the empty string, which does not end with the separator.
\<close>

theorem C10_get_path_trailing_sep_counterexample:
  "get_path example_empty 0 = Some [] \<and> \<not> endswith [] sep"
  by (simp add: get_path_root example_empty_node join_def path_simps)

section \<open>Registering files\<close>











section \<open>Creating a single file\<close>

text \<open>
  Claim C3. For a name that is not in the file map of the node, \<^verbatim>\<open>create_file\<close> raises
  \<^verbatim>\<open>FileNotFoundError\<close> with the message of the virtual file, whatever the operating
  system does: no operation of the system is called, and the file system is the one it
  started from. \<^verbatim>\<open>create_file\<close> and the lookups it calls assign no attribute, so the
  store is only read.
\<close>

theorem C3_create_file_unregistered:
  assumes "map_of (files (nodes s n)) file_name = None"
  shows "create_file os s n file_name encoding fs =
     Some (Inl (FileNotFoundError
        (''Virtual file '' @ file_name @ '' not found from node '' @ name (nodes s n))), fs)"
  using assms by (simp add: create_file_def get_file_path_def)

theorem C3_create_file_unregistered_witness:
  "map_of (files (nodes example_tree 0)) ''zz'' = None \<and>
   create_file posix example_tree 0 ''zz'' ''utf-8'' example_fs =
     Some (Inl (FileNotFoundError ''Virtual file zz not found from node a''), example_fs)"
proof -
  have h: "map_of (files (nodes example_tree 0)) ''zz'' = None"
    by (simp add: example_tree_nodes)
  from C3_create_file_unregistered[OF h, of posix "''utf-8''" example_fs]
  have "create_file posix example_tree 0 ''zz'' ''utf-8'' example_fs =
     Some (Inl (FileNotFoundError ''Virtual file zz not found from node a''), example_fs)"
    by (simp add: example_tree_nodes)
  with h show ?thesis by blast
qed

text \<open>
  Claim C4. When the write of a registered file raises an exception \<open>e\<close>,
  \<^verbatim>\<open>create_file\<close> raises \<^verbatim>\<open>PathNotExists\<close>, which carries \<open>e\<close> itself, and leaves the file
  system as the failed write left it.
\<close>

theorem C4_create_file_wraps_error:
  assumes "get_file_path s n file_name = Some (Some file_path)" and "file_path \<noteq> []"
    and "get_file_content s n file_name = Some content"
    and "os_write os file_path encoding content fs = (Inl e, fs1)"
  shows "\<exists>d. get_path s n = Some d \<and>
     create_file os s n file_name encoding fs =
       Some (Inl (PathNotExists (''Maybe path '' @ d @ '' not exists'') e), fs1)"
proof -
  from assms(1,3) obtain d where d: "get_path s n = Some d"
    by (auto simp: get_file_path_def get_file_content_def split: option.splits)
  with assms show ?thesis by (simp add: create_file_def get_file_content_def)
qed

theorem C4_create_file_wraps_error_witness:
  "get_file_path example_tree 2 ''g'' = Some (Some ''/r/a/b/c/g'') \<and> ''/r/a/b/c/g'' \<noteq> [] \<and>
   get_file_content example_tree 2 ''g'' = Some ''y'' \<and>
   os_write posix ''/r/a/b/c/g'' ''utf-8'' ''y'' example_fs =
     (Inl (FileNotFoundError ''/r/a/b/c/g''), example_fs) \<and>
   create_file posix example_tree 2 ''g'' ''utf-8'' example_fs =
     Some (Inl (PathNotExists ''Maybe path /r/a/b/c/ not exists''
        (FileNotFoundError ''/r/a/b/c/g'')), example_fs)"
proof -
  have a: "get_file_path example_tree 2 ''g'' = Some (Some ''/r/a/b/c/g'')"
    by (simp add: get_file_path_def example_tree_path2 example_tree_nodes join_def path_simps)
  have b: "''/r/a/b/c/g'' \<noteq> []" by simp
  have c: "get_file_content example_tree 2 ''g'' = Some ''y''"
    by (simp add: get_file_content_def example_tree_nodes)
  have d: "os_write posix ''/r/a/b/c/g'' ''utf-8'' ''y'' example_fs =
     (Inl (FileNotFoundError ''/r/a/b/c/g''), example_fs)"
    by (simp add: posix_def posix_write_def components_def is_file_def is_dir_def example_fs_def)
  from C4_create_file_wraps_error[OF a b c d]
  have "create_file posix example_tree 2 ''g'' ''utf-8'' example_fs =
     Some (Inl (PathNotExists ''Maybe path /r/a/b/c/ not exists''
        (FileNotFoundError ''/r/a/b/c/g'')), example_fs)"
    by (simp add: example_tree_path2)
  with a b c d show ?thesis by blast
qed

section \<open>Adding children\<close>

text \<open>
  With \<^verbatim>\<open>children\<close> left out, the constructor is \<open>init_plain\<close> after the check of the root
  path, and the check does nothing for a parent that is a node: this is the call
  \<^verbatim>\<open>FileTree(c, self)\<close> of \<^verbatim>\<open>add_child\<close>.
\<close>

lemma init_without_children:
  "init os fs nm par files_arg None s =
     (case init_plain nm par files_arg (warn_root os fs par s) of (self, s1) \<Rightarrow> (Inr self, s1))"
  by (simp add: init_def init_plain_def allocate_def Let_def)

lemma warn_root_node: "warn_root os fs (NodeRef q) s = s"
  by (simp add: warn_root_def)

lemma parent_chain_cong:
  "parent_chain s ch rp \<Longrightarrow> (\<And>r. r \<in> set ch \<Longrightarrow> parent (nodes s' r) = parent (nodes s r)) \<Longrightarrow>
     parent_chain s' ch rp"
  by (induction s ch rp rule: parent_chain.induct) auto

lemma parent_chain_Cons:
  "parent_chain s ch rp \<Longrightarrow> parent (nodes s n) = NodeRef (hd ch) \<Longrightarrow> parent_chain s (n # ch) rp"
  by (cases ch) auto

lemma add_child_node:
  assumes "children (nodes s p) = Some cs"
  shows "add_child p [ChildNode n] s =
     (Inr (), s\<lparr>nodes := (nodes s)
        (n := (nodes s n)\<lparr>parent := NodeRef p\<rparr>,
         p := (if p = n then (nodes s n)\<lparr>parent := NodeRef p\<rparr> else nodes s p)
                \<lparr>children := Some (AList.update (name (nodes s n)) n cs)\<rparr>)\<rparr>)"
proof (cases "p = n")
  case True
  with assms have "children (nodes s n) = Some cs" by simp
  with True show ?thesis by (simp add: Let_def)
next
  case False
  with assms show ?thesis by (simp add: Let_def)
qed

lemma example_flat_nodes:
  "nodes example_flat 0 = \<lparr>parent = PathStr ''/r'', name = ''a'',
     children = Some [(''b'', 1), (''c'', 2)], files = [(''f'', ''x'')]\<rparr>"
  "nodes example_flat (Suc 0) = \<lparr>parent = NodeRef 0, name = ''b'',
     children = Some [], files = []\<rparr>"
  "nodes example_flat 2 = \<lparr>parent = NodeRef 0, name = ''c'',
     children = Some [], files = [(''g'', ''y'')]\<rparr>"
  by (simp_all add: example_flat_def)

lemma example_flat_paths:
  "get_path example_flat 0 = Some ''/r/a/''"
  "get_path example_flat (Suc 0) = Some ''/r/a/b/''"
  "get_path example_flat 2 = Some ''/r/a/c/''"
proof -
  show 0: "get_path example_flat 0 = Some ''/r/a/''"
    by (simp add: get_path_root example_flat_nodes join_def path_simps)
  show "get_path example_flat (Suc 0) = Some ''/r/a/b/''"
    by (simp add: get_path_interior[of _ _ 0] 0 example_flat_nodes join_def path_simps)
  show "get_path example_flat 2 = Some ''/r/a/c/''"
    by (simp add: get_path_interior[of _ _ 0] 0 example_flat_nodes join_def path_simps)
qed

text \<open>
  Claim C9, as amended. \<^verbatim>\<open>parent.add_child(n)\<close> on an existing node \<open>n\<close> returns normally,
  sets the parent link of \<open>n\<close> to the new parent and enters \<open>n\<close> under its name in the
  \<^verbatim>\<open>children\<close> dictionary of the new parent, and changes nothing else: every other
  parent link, every other \<^verbatim>\<open>children\<close> dictionary (that of a previous parent among them,
  so a stale entry for \<open>n\<close> stays there), every name and file map, and the rest of the
  store are as before. When the chain of parents of the new parent ends in a root
  without passing through \<open>n\<close>, the path of the new parent is unchanged and the path of
  \<open>n\<close> is at once the join of it with the name of \<open>n\<close> and the empty segment.
\<close>

theorem C9_add_child_relocate:
  assumes "children (nodes s p) = Some cs" and "add_child p [ChildNode n] s = (res, s')"
  shows "res = Inr () \<and>
     parent (nodes s' n) = NodeRef p \<and>
     children (nodes s' p) = Some (AList.update (name (nodes s n)) n cs) \<and>
     (\<forall>r. r \<noteq> n \<longrightarrow> parent (nodes s' r) = parent (nodes s r)) \<and>
     (\<forall>r. r \<noteq> p \<longrightarrow> children (nodes s' r) = children (nodes s r)) \<and>
     (\<forall>r. name (nodes s' r) = name (nodes s r) \<and> files (nodes s' r) = files (nodes s r)) \<and>
     next_ref s' = next_ref s \<and> warnings s' = warnings s \<and>
     (\<forall>ch rp. parent_chain s ch rp \<longrightarrow> hd ch = p \<longrightarrow> n \<notin> set ch \<longrightarrow>
        (\<exists>d. get_path s p = Some d \<and> get_path s' p = Some d \<and>
             get_path s' n = Some (join d [name (nodes s n), []])))"
proof -
  from add_child_node[OF assms(1), of n] assms(2)
  have res: "res = Inr ()" and s': "s' = s\<lparr>nodes := (nodes s)
        (n := (nodes s n)\<lparr>parent := NodeRef p\<rparr>,
         p := (if p = n then (nodes s n)\<lparr>parent := NodeRef p\<rparr> else nodes s p)
                \<lparr>children := Some (AList.update (name (nodes s n)) n cs)\<rparr>)\<rparr>"
    by simp_all
  have par_n: "parent (nodes s' n) = NodeRef p" by (simp add: s')
  have ch_p: "children (nodes s' p) = Some (AList.update (name (nodes s n)) n cs)" by (simp add: s')
  have par: "\<forall>r. r \<noteq> n \<longrightarrow> parent (nodes s' r) = parent (nodes s r)" by (simp add: s')
  have chd: "\<forall>r. r \<noteq> p \<longrightarrow> children (nodes s' r) = children (nodes s r)" by (simp add: s')
  have nf: "\<forall>r. name (nodes s' r) = name (nodes s r) \<and> files (nodes s' r) = files (nodes s r)"
    by (simp add: s')
  have rest: "next_ref s' = next_ref s \<and> warnings s' = warnings s" by (simp add: s')
  have path: "\<exists>d. get_path s p = Some d \<and> get_path s' p = Some d \<and>
             get_path s' n = Some (join d [name (nodes s n), []])"
    if c: "parent_chain s ch rp" and h: "hd ch = p" and n: "n \<notin> set ch" for ch rp
  proof -
    from c have ne: "ch \<noteq> []" by auto
    from c n par have c': "parent_chain s' ch rp"
      by (intro parent_chain_cong[OF c]) auto
    from parent_chain_path[OF c, of "[]"] h
    have d: "get_path s p = Some (join rp (map (\<lambda>r. name (nodes s r)) (rev ch) @ [[]]))"
      by (simp add: get_path_def)
    from parent_chain_path[OF c', of "[]"] h nf
    have d': "get_path s' p = Some (join rp (map (\<lambda>r. name (nodes s r)) (rev ch) @ [[]]))"
      by (simp add: get_path_def)
    from get_path_interior[OF par_n] d' nf
    have "get_path s' n = Some (join (join rp (map (\<lambda>r. name (nodes s r)) (rev ch) @ [[]]))
        [name (nodes s n), []])" by simp
    with d d' show ?thesis by blast
  qed
  from res par_n ch_p par chd nf rest path show ?thesis by blast
qed

theorem C9_add_child_relocate_witness:
  "children (nodes example_flat 1) = Some [] \<and>
   fst (add_child 1 [ChildNode 2] example_flat) = Inr () \<and>
   parent (nodes example_flat 2) = NodeRef 0 \<and>
   parent (nodes (snd (add_child 1 [ChildNode 2] example_flat)) 2) = NodeRef 1 \<and>
   children (nodes (snd (add_child 1 [ChildNode 2] example_flat)) 1) = Some [(''c'', 2)] \<and>
   children (nodes (snd (add_child 1 [ChildNode 2] example_flat)) 0) =
     Some [(''b'', 1), (''c'', 2)] \<and>
   parent_chain example_flat [1, 0] ''/r'' \<and> hd [1, 0] = (1::nat) \<and> (2::nat) \<notin> set [1, 0] \<and>
   get_path example_flat 2 = Some ''/r/a/c/'' \<and>
   get_path (snd (add_child 1 [ChildNode 2] example_flat)) 2 = Some ''/r/a/b/c/''"
proof -
  have cs: "children (nodes example_flat 1) = Some []" by (simp add: example_flat_nodes)
  have run: "add_child 1 [ChildNode 2] example_flat =
    (fst (add_child 1 [ChildNode 2] example_flat), snd (add_child 1 [ChildNode 2] example_flat))"
    by simp
  have old: "parent (nodes example_flat 2) = NodeRef 0" by (simp add: example_flat_nodes)
  have chain: "parent_chain example_flat [1, 0] ''/r''" by (simp add: example_flat_nodes)
  have hd: "hd [1, 0] = (1::nat)" and notin: "(2::nat) \<notin> set [1, 0]" by simp_all
  note c9 = C9_add_child_relocate[OF cs run]
  from c9 have ok: "fst (add_child 1 [ChildNode 2] example_flat) = Inr ()" by blast
  from c9 have par: "parent (nodes (snd (add_child 1 [ChildNode 2] example_flat)) 2) = NodeRef 1"
    by blast
  from c9 have "children (nodes (snd (add_child 1 [ChildNode 2] example_flat)) 1) =
      Some (AList.update (name (nodes example_flat 2)) 2 [])" by blast
  then have new: "children (nodes (snd (add_child 1 [ChildNode 2] example_flat)) 1) =
      Some [(''c'', 2)]" by (simp add: example_flat_nodes)
  from c9 have "(0::nat) \<noteq> 1 \<longrightarrow>
      children (nodes (snd (add_child 1 [ChildNode 2] example_flat)) 0) =
      children (nodes example_flat 0)" by blast
  then have stale: "children (nodes (snd (add_child 1 [ChildNode 2] example_flat)) 0) =
      Some [(''b'', 1), (''c'', 2)]" by (simp add: example_flat_nodes)
  from c9 chain hd notin obtain d where d: "get_path example_flat 1 = Some d"
    and p: "get_path (snd (add_child 1 [ChildNode 2] example_flat)) 2 =
      Some (join d [name (nodes example_flat 2), []])" by blast
  from d have "d = ''/r/a/b/''" by (simp add: example_flat_paths)
  with p have "get_path (snd (add_child 1 [ChildNode 2] example_flat)) 2 =
      Some (join ''/r/a/b/'' [name (nodes example_flat 2), []])" by (simp only:)
  then have path: "get_path (snd (add_child 1 [ChildNode 2] example_flat)) 2 = Some ''/r/a/b/c/''"
    by (simp add: example_flat_nodes join_def path_simps)
  from cs ok old par new stale chain hd notin example_flat_paths(3) path show ?thesis by blast
qed

text \<open>
  Claim C9 as stated fails: the parent link of \<open>n\<close> is not the only state that changes.
  The store after the call differs from the store in which only that link is set, in
  the \<^verbatim>\<open>children\<close> dictionary of the new parent. And when the new parent is \<open>n\<close> itself,
  the call returns normally and \<^verbatim>\<open>get_path\<close> of \<open>n\<close> no longer returns.
\<close>

theorem C9_add_child_relocate_counterexample:
  "snd (add_child 1 [ChildNode 2] example_flat) \<noteq>
     example_flat\<lparr>nodes := (nodes example_flat)
        (2 := (nodes example_flat 2)\<lparr>parent := NodeRef 1\<rparr>)\<rparr> \<and>
   children (nodes example_flat 1) = Some [] \<and>
   children (nodes (snd (add_child 1 [ChildNode 2] example_flat)) 1) = Some [(''c'', 2)] \<and>
   fst (add_child 0 [ChildNode 0] example_flat) = Inr () \<and>
   get_path (snd (add_child 0 [ChildNode 0] example_flat)) 0 = None"
proof -
  have cs0: "children (nodes example_flat 0) = Some [(''b'', 1), (''c'', 2)]"
    by (simp add: example_flat_nodes)
  from add_child_node[OF cs0, of 0]
  have ok: "fst (add_child 0 [ChildNode 0] example_flat) = Inr ()"
    and "parent (nodes (snd (add_child 0 [ChildNode 0] example_flat)) 0) = NodeRef 0"
    by simp_all
  from get_path_recursive_self_loop[OF this(2)]
  have loop: "get_path (snd (add_child 0 [ChildNode 0] example_flat)) 0 = None"
    by (simp add: get_path_def)
  have cs: "children (nodes example_flat 1) = Some []" by (simp add: example_flat_nodes)
  from add_child_node[OF cs, of 2]
  have new: "children (nodes (snd (add_child 1 [ChildNode 2] example_flat)) 1) = Some [(''c'', 2)]"
    by (simp add: example_flat_nodes)
  have "children (nodes (example_flat\<lparr>nodes := (nodes example_flat)
        (2 := (nodes example_flat 2)\<lparr>parent := NodeRef 1\<rparr>)\<rparr>) 1) = Some []"
    by (simp add: example_flat_nodes)
  then have old: "children (nodes (example_flat\<lparr>nodes := (nodes example_flat)
        (2 := (nodes example_flat 2)\<lparr>parent := NodeRef 1\<rparr>)\<rparr>) 1) \<noteq> Some [(''c'', 2)]"
    by simp
  have ne: "snd (add_child 1 [ChildNode 2] example_flat) \<noteq>
     example_flat\<lparr>nodes := (nodes example_flat)
        (2 := (nodes example_flat 2)\<lparr>parent := NodeRef 1\<rparr>)\<rparr>"
  proof
    assume "snd (add_child 1 [ChildNode 2] example_flat) =
     example_flat\<lparr>nodes := (nodes example_flat)
        (2 := (nodes example_flat 2)\<lparr>parent := NodeRef 1\<rparr>)\<rparr>"
    with new have "children (nodes (example_flat\<lparr>nodes := (nodes example_flat)
        (2 := (nodes example_flat 2)\<lparr>parent := NodeRef 1\<rparr>)\<rparr>) 1) = Some [(''c'', 2)]"
      by (simp only:)
    with old show False by (rule notE)
  qed
  from ne cs new ok loop show ?thesis by blast
qed

section \<open>The constructor with a children argument\<close>

lemma add_child_unassigned:
  assumes "children (nodes s self) = None" and "self < next_ref s"
  shows "fst (add_child self (c # rest) s) = Inl (AttributeError ''children'')"
proof (cases c)
  case (ChildName nm)
  with assms show ?thesis by (simp add: init_plain_def allocate_def)
next
  case (ChildNode r)
  show ?thesis
  proof (cases "self = r")
    case True
    with assms ChildNode have "children (nodes s r) = None" by simp
    with True ChildNode show ?thesis by (simp add: Let_def)
  next
    case False
    with assms ChildNode show ?thesis by (simp add: Let_def)
  qed
qed

lemma next_ref_warn_root: "next_ref (warn_root os fs par s) = next_ref s"
  by (simp add: warn_root_def split: parent_link.splits)

text \<open>
  Claim C2 does not hold of the code. Whatever the other arguments are, the constructor
  with a non-empty string for \<^verbatim>\<open>children\<close> raises \<^verbatim>\<open>AttributeError\<close>, because \<^verbatim>\<open>add_child\<close>
  reads \<^verbatim>\<open>self.children\<close> before the constructor has assigned it; with a node for
  \<^verbatim>\<open>children\<close> it raises \<^verbatim>\<open>TypeError\<close>, because the node is unpacked as an iterable; and
  with the empty string it returns a node that has no \<^verbatim>\<open>children\<close> attribute at all.
\<close>

theorem C2_init_with_children_raises:
  "fst (init os fs nm par files_arg (Some (ChildName (c # cs))) s) =
     Inl (AttributeError ''children'') \<and>
   fst (init os fs nm par files_arg (Some (ChildNode r)) s) =
     Inl (TypeError ''argument after * must be an iterable'') \<and>
   fst (init os fs nm par files_arg (Some (ChildName [])) s) = Inr (next_ref s) \<and>
   children (nodes (snd (init os fs nm par files_arg (Some (ChildName [])) s)) (next_ref s)) = None"
proof -
  define s0 where "s0 = warn_root os fs par s"
  define self where "self = next_ref s0"
  define s1 where "s1 = s0\<lparr>nodes := (nodes s0)
      (self := \<lparr>parent = par, name = nm, children = None, files = []\<rparr>),
      next_ref := Suc self\<rparr>"
  have alloc: "allocate \<lparr>parent = par, name = nm, children = None, files = []\<rparr> s0 = (self, s1)"
    by (simp add: allocate_def self_def s1_def)
  have un: "children (nodes s1 self) = None" and lt: "self < next_ref s1"
    by (simp_all add: s1_def)
  have self: "self = next_ref s" by (simp add: self_def s0_def next_ref_warn_root)
  obtain s2 where ac: "add_child self (ChildName [c] # map (\<lambda>ch. ChildName [ch]) cs) s1 =
      (Inl (AttributeError ''children''), s2)"
    using add_child_unassigned[OF un lt, of "ChildName [c]" "map (\<lambda>ch. ChildName [ch]) cs"]
    by (cases "add_child self (ChildName [c] # map (\<lambda>ch. ChildName [ch]) cs) s1") simp
  have a: "fst (init os fs nm par files_arg (Some (ChildName (c # cs))) s) =
     Inl (AttributeError ''children'')"
    by (simp add: init_def Let_def s0_def[symmetric] alloc ac del: add_child.simps)
  have b: "fst (init os fs nm par files_arg (Some (ChildNode r)) s) =
     Inl (TypeError ''argument after * must be an iterable'')"
    by (simp add: init_def Let_def s0_def[symmetric] alloc)
  have c: "fst (init os fs nm par files_arg (Some (ChildName [])) s) = Inr (next_ref s) \<and>
   children (nodes (snd (init os fs nm par files_arg (Some (ChildName [])) s)) (next_ref s)) = None"
    using un by (simp add: init_def Let_def s0_def[symmetric] alloc self[symmetric])
  from a b c show ?thesis by blast
qed

text \<open>The constructor call \<^verbatim>\<open>FileTree("a", "/r", children="b")\<close> on the empty store.\<close>

theorem C2_failing_input:
  "fst (init posix example_fs ''a'' (PathStr ''/r'') None (Some (ChildName ''b'')) empty_store) =
     Inl (AttributeError ''children'')"
  by (simp add: init_def Let_def warn_root_def allocate_def init_plain_def empty_store_def blank_def
      posix_def posix_path_exists_def components_def is_dir_def is_file_def example_fs_def)

section \<open>Fuel\<close>

text \<open>
  A run that returns with some fuel returns the same with more: the fuel only decides
  whether the model sees the end of the recursion.
\<close>

lemma for_each_mono:
  assumes "\<And>x fs res. body x fs = Some res \<Longrightarrow> body' x fs = Some res"
  shows "for_each body xs fs = Some res \<Longrightarrow> for_each body' xs fs = Some res"
proof (induction xs arbitrary: fs)
  case Nil
  then show ?case by simp
next
  case (Cons x xs)
  from Cons.prems obtain r1 where 1: "body x fs = Some r1" by (auto split: option.splits)
  from assms[OF 1] have 2: "body' x fs = Some r1" .
  from Cons.prems 1 2 Cons.IH show ?case
    by (cases r1) (auto split: sum.splits)
qed

lemma mkdir_rec_more_fuel:
  "mkdir_rec k os s r fs = Some res \<Longrightarrow> mkdir_rec (Suc k) os s r fs = Some res"
proof (induction k arbitrary: r fs res)
  case 0
  then show ?case by simp
next
  case (Suc k)
  have step: "\<And>xs fs res. for_each (mkdir_rec k os s) xs fs = Some res \<Longrightarrow>
      for_each (mkdir_rec (Suc k) os s) xs fs = Some res"
    using for_each_mono[where body = "mkdir_rec k os s" and body' = "mkdir_rec (Suc k) os s"]
      Suc.IH by blast
  from Suc.prems show ?case
    by (subst mkdir_rec.simps) (auto split: option.splits sum.splits prod.splits dest: step)
qed

lemma mkTree_rec_more_fuel:
  "mkTree_rec k os s r fs = Some res \<Longrightarrow> mkTree_rec (Suc k) os s r fs = Some res"
proof (induction k arbitrary: r fs res)
  case 0
  then show ?case by simp
next
  case (Suc k)
  have step: "\<And>xs fs res. for_each (mkTree_rec k os s) xs fs = Some res \<Longrightarrow>
      for_each (mkTree_rec (Suc k) os s) xs fs = Some res"
    using for_each_mono[where body = "mkTree_rec k os s" and body' = "mkTree_rec (Suc k) os s"]
      Suc.IH by blast
  from Suc.prems show ?case
    by (subst mkTree_rec.simps) (auto split: option.splits sum.splits prod.splits dest: step)
qed

section \<open>Materialising the full tree\<close>

lemma run_actions_append:
  "run_actions os s (xs @ ys) fs =
     (case run_actions os s xs fs of
        None \<Rightarrow> None
      | Some (Inl e, fs1) \<Rightarrow> Some (Inl e, fs1)
      | Some (Inr u, fs1) \<Rightarrow> run_actions os s ys fs1)"
  by (induction xs arbitrary: fs) (auto split: option.splits sum.splits prod.splits)

lemma for_each_create_file:
  "for_each (\<lambda>file_name. create_file os s r file_name ''utf-8'') names fs =
     run_actions os s (map (CreateFile r) names) fs"
  by (induction names arbitrary: fs) (auto split: option.splits sum.splits prod.splits)

lemma for_each_subtrees:
  assumes "\<And>t fs. t \<in> set ts \<Longrightarrow> body (tree_root t) fs = run_actions os s (spec_actions s t) fs"
  shows "for_each body (map tree_root ts) fs =
     run_actions os s (concat (map (spec_actions s) ts)) fs"
  using assms
proof (induction ts arbitrary: fs)
  case Nil
  then show ?case by simp
next
  case (Cons t ts)
  have hd: "\<And>fs. body (tree_root t) fs = run_actions os s (spec_actions s t) fs"
    using Cons.prems by simp
  have tl: "\<And>fs. for_each body (map tree_root ts) fs =
     run_actions os s (concat (map (spec_actions s) ts)) fs"
    using Cons.IH Cons.prems by simp
  show ?case
    by (simp add: run_actions_append hd tl split: option.splits sum.splits prod.splits)
qed

lemma height_subtree: "t \<in> set ts \<Longrightarrow> height t \<le> foldr max (map height ts) 0"
  by (induction ts) auto

lemma mkTree_rec_actions:
  "wf_tree s par t \<Longrightarrow> height t \<le> k \<Longrightarrow>
     mkTree_rec k os s (tree_root t) fs = run_actions os s (spec_actions s t) fs"
proof (induction t arbitrary: par k fs)
  case (NTree r ts)
  from NTree.prems(2) obtain k' where k: "k = Suc k'" and hk: "foldr max (map height ts) 0 \<le> k'"
    by (cases k) auto
  from NTree.prems(1) obtain cs where cs: "children (nodes s r) = Some cs"
    and roots: "map snd cs = map tree_root ts"
    and sub: "list_all (wf_tree s (NodeRef r)) ts"
    by (auto split: option.splits)
  have kids: "\<And>t fs. t \<in> set ts \<Longrightarrow>
      mkTree_rec k' os s (tree_root t) fs = run_actions os s (spec_actions s t) fs"
  proof -
    fix t fs assume t: "t \<in> set ts"
    with sub have "wf_tree s (NodeRef r) t" by (simp add: list_all_iff)
    moreover from t hk have "height t \<le> k'" using height_subtree[OF t] by simp
    ultimately show "mkTree_rec k' os s (tree_root t) fs = run_actions os s (spec_actions s t) fs"
      using NTree.IH[OF t] by blast
  qed
  show ?case
    by (simp add: k cs roots run_actions_append for_each_create_file
        for_each_subtrees[where body = "mkTree_rec k' os s", OF kids]
        split: option.splits sum.splits prod.splits)
qed


lemma returns_root:
  "parent (nodes s n) = PathStr p \<Longrightarrow> get_path_recursive s n path \<noteq> None"
  by (subst get_path_recursive.simps) simp

lemma returns_child:
  "parent (nodes s n) = NodeRef q \<Longrightarrow> (\<And>path. get_path_recursive s q path \<noteq> None) \<Longrightarrow>
     get_path_recursive s n path \<noteq> None"
  by (subst get_path_recursive.simps) simp

lemma wf_tree_parent: "wf_tree s par t \<Longrightarrow> parent (nodes s (tree_root t)) = par"
  by (cases t) simp

lemma wf_tree_nodes:
  "wf_tree s par t \<Longrightarrow> get_root s (tree_root t) = Some R \<Longrightarrow>
   (\<And>path. get_path_recursive s (tree_root t) path \<noteq> None) \<Longrightarrow> n \<in> set (tree_nodes t) \<Longrightarrow>
     get_root s n = Some R \<and> (\<forall>path. get_path_recursive s n path \<noteq> None)"
proof (induction t arbitrary: par)
  case (NTree r ts)
  show ?case
  proof (cases "n = r")
    case True
    with NTree.prems show ?thesis by simp
  next
    case False
    with NTree.prems(4) obtain c where c: "c \<in> set ts" and n: "n \<in> set (tree_nodes c)" by auto
    from NTree.prems(1) c have wfc: "wf_tree s (NodeRef r) c"
      by (auto simp: list_all_iff split: option.splits)
    then have par: "parent (nodes s (tree_root c)) = NodeRef r" by (rule wf_tree_parent)
    have root: "get_root s (tree_root c) = Some R"
      using NTree.prems(2) par by (simp add: get_root.simps[of s "tree_root c"])
    have ret: "\<And>path. get_path_recursive s (tree_root c) path \<noteq> None"
      using returns_child[OF par] NTree.prems(3) by simp
    from NTree.IH[OF c wfc root ret n] show ?thesis .
  qed
qed

lemma wf_root_tree_nodes:
  assumes "wf_tree s (PathStr p) t" "n \<in> set (tree_nodes t)"
  shows "get_root s n = Some (tree_root t)" "get_path s n \<noteq> None"
proof -
  from assms(1) have par: "parent (nodes s (tree_root t)) = PathStr p" by (rule wf_tree_parent)
  then have root: "get_root s (tree_root t) = Some (tree_root t)"
    by (simp add: get_root.simps[of s "tree_root t"])
  from wf_tree_nodes[OF assms(1) root returns_root[OF par] assms(2)]
  show "get_root s n = Some (tree_root t)" "get_path s n \<noteq> None"
    by (simp_all add: get_path_def)
qed

lemma run_action_returns:
  "get_path s (action_node a) \<noteq> None \<Longrightarrow> run_action os s a fs \<noteq> None"
  by (cases a)
    (auto simp: create_file_def get_file_path_def Let_def split: option.splits sum.splits prod.splits)

lemma run_actions_returns:
  "(\<And>a. a \<in> set acts \<Longrightarrow> get_path s (action_node a) \<noteq> None) \<Longrightarrow>
     run_actions os s acts fs \<noteq> None"
proof (induction acts arbitrary: fs)
  case Nil
  then show ?case by simp
next
  case (Cons a acts)
  from Cons.prems have "run_action os s a fs \<noteq> None" by (simp add: run_action_returns)
  moreover have "\<And>fs. run_actions os s acts fs \<noteq> None" using Cons by simp
  ultimately show ?case by (auto split: sum.splits prod.splits)
qed

lemma spec_actions_nodes: "action_node ` set (spec_actions s t) \<subseteq> set (tree_nodes t)"
  by (induction t) (auto simp: image_Un image_image)

lemma example_clash_nodes:
  "nodes example_clash 0 = \<lparr>parent = PathStr ''/r'', name = ''a'',
     children = Some [(''b'', 1)], files = [(''b'', ''x'')]\<rparr>"
  "nodes example_clash (Suc 0) = \<lparr>parent = NodeRef 0, name = ''b'',
     children = Some [], files = []\<rparr>"
  by (simp_all add: example_clash_def)

lemma example_tree_paths:
  "get_path example_tree 0 = Some ''/r/a/''"
  "get_path example_tree (Suc 0) = Some ''/r/a/b/''"
  "get_path example_tree 2 = Some ''/r/a/b/c/''"
proof -
  show 0: "get_path example_tree 0 = Some ''/r/a/''"
    by (simp add: get_path_root example_tree_nodes join_def path_simps)
  show 1: "get_path example_tree (Suc 0) = Some ''/r/a/b/''"
    by (simp add: get_path_interior[of _ _ 0] 0 example_tree_nodes join_def path_simps)
  show "get_path example_tree 2 = Some ''/r/a/b/c/''"
    by (simp add: get_path_interior[of _ _ 1] 1 example_tree_nodes join_def path_simps)
qed

lemma example_clash_paths:
  "get_path example_clash 0 = Some ''/r/a/''"
  "get_path example_clash (Suc 0) = Some ''/r/a/b/''"
proof -
  show 0: "get_path example_clash 0 = Some ''/r/a/''"
    by (simp add: get_path_root example_clash_nodes join_def path_simps)
  show "get_path example_clash (Suc 0) = Some ''/r/a/b/''"
    by (simp add: get_path_interior[of _ _ 0] 0 example_clash_nodes join_def path_simps)
qed

lemma example_components:
  "components ''/r/a/'' = [''r'', ''a'']"
  "components ''/r/a/b/'' = [''r'', ''a'', ''b'']"
  "components ''/r/a/b/c/'' = [''r'', ''a'', ''b'', ''c'']"
  "components ''/r/a/f'' = [''r'', ''a'', ''f'']"
  "components ''/r/a/b'' = [''r'', ''a'', ''b'']"
  "components ''/r/a/b/c/g'' = [''r'', ''a'', ''b'', ''c'', ''g'']"
  by (simp_all add: components_def)

lemmas posix_simps = posix_def posix_mkdir_def posix_write_def posix_path_exists_def
  is_dir_def is_file_def example_components path_simps


lemmas example_run_simps = create_file_def get_file_path_def join_def posix_simps example_fs_def

text \<open>
  Claim C7. On a tree in the store whose root lies over a raw path, \<^verbatim>\<open>mkTree\<close> called on
  any node of the tree, with fuel for the height of the tree, returns, and does what
  running the steps of the specification in order does: for each node in pre-order
  the directory of the node, then each registered file through \<^verbatim>\<open>create_file\<close>, then the
  children. In particular, when the steps before some step succeed and that step
  raises, \<^verbatim>\<open>mkTree\<close> raises the same exception and the file system is as that step left
  it, with all that the earlier steps created.
\<close>

theorem C7_mkTree_preorder:
  assumes "wf_tree s (PathStr p) t" and "n \<in> set (tree_nodes t)" and "height t \<le> k"
  shows "mkTree k os s n fs = run_actions os s (spec_actions s t) fs \<and>
         (\<exists>res. mkTree k os s n fs = Some res) \<and>
         (\<forall>before a rest fs1 e fs2.
            spec_actions s t = before @ a # rest \<longrightarrow>
            run_actions os s before fs = Some (Inr (), fs1) \<longrightarrow>
            run_action os s a fs1 = Some (Inl e, fs2) \<longrightarrow>
            mkTree k os s n fs = Some (Inl e, fs2))"
proof -
  have eq: "mkTree k os s n fs = run_actions os s (spec_actions s t) fs"
    using wf_root_tree_nodes(1)[OF assms(1,2)] mkTree_rec_actions[OF assms(1,3)]
    by (simp add: mkTree_def)
  have "run_actions os s (spec_actions s t) fs \<noteq> None"
  proof (rule run_actions_returns)
    fix a assume "a \<in> set (spec_actions s t)"
    with spec_actions_nodes[of s t] have "action_node a \<in> set (tree_nodes t)" by auto
    then show "get_path s (action_node a) \<noteq> None" by (rule wf_root_tree_nodes(2)[OF assms(1)])
  qed
  with eq have ret: "\<exists>res. mkTree k os s n fs = Some res" by auto
  have halt: "\<forall>before a rest fs1 e fs2.
            spec_actions s t = before @ a # rest \<longrightarrow>
            run_actions os s before fs = Some (Inr (), fs1) \<longrightarrow>
            run_action os s a fs1 = Some (Inl e, fs2) \<longrightarrow>
            mkTree k os s n fs = Some (Inl e, fs2)"
    by (simp add: eq run_actions_append)
  from eq ret halt show ?thesis by blast
qed

theorem C7_mkTree_preorder_witness:
  "wf_tree example_tree (PathStr ''/r'') (NTree 0 [NTree 1 [NTree 2 []]]) \<and>
   2 \<in> set (tree_nodes (NTree 0 [NTree 1 [NTree 2 []]])) \<and>
   height (NTree 0 [NTree 1 [NTree 2 []]]) \<le> 3 \<and>
   mkTree 3 posix example_tree 2 example_fs =
     Some (Inr (),
       \<lparr>fs_dirs = {[''r'', ''a'', ''b'', ''c''], [''r'', ''a'', ''b''], [''r'', ''a''], [''r'']},
        fs_files = [[''r'', ''a'', ''f''] \<mapsto> ''x'', [''r'', ''a'', ''b'', ''c'', ''g''] \<mapsto> ''y'']\<rparr>) \<and>
   wf_tree example_clash (PathStr ''/r'') (NTree 0 [NTree 1 []]) \<and>
   1 \<in> set (tree_nodes (NTree 0 [NTree 1 []])) \<and>
   height (NTree 0 [NTree 1 []]) \<le> 2 \<and>
   spec_actions example_clash (NTree 0 [NTree 1 []]) = [MkDir 0, CreateFile 0 ''b''] @ MkDir 1 # [] \<and>
   run_actions posix example_clash [MkDir 0, CreateFile 0 ''b''] example_fs =
     Some (Inr (), \<lparr>fs_dirs = {[''r'', ''a''], [''r'']}, fs_files = [[''r'', ''a'', ''b''] \<mapsto> ''x'']\<rparr>) \<and>
   run_action posix example_clash (MkDir 1)
       \<lparr>fs_dirs = {[''r'', ''a''], [''r'']}, fs_files = [[''r'', ''a'', ''b''] \<mapsto> ''x'']\<rparr> =
     Some (Inl (FileExistsError ''/r/a/b/''),
       \<lparr>fs_dirs = {[''r'', ''a''], [''r'']}, fs_files = [[''r'', ''a'', ''b''] \<mapsto> ''x'']\<rparr>) \<and>
   mkTree 2 posix example_clash 1 example_fs =
     Some (Inl (FileExistsError ''/r/a/b/''),
       \<lparr>fs_dirs = {[''r'', ''a''], [''r'']}, fs_files = [[''r'', ''a'', ''b''] \<mapsto> ''x'']\<rparr>)"
proof -
  have w1: "wf_tree example_tree (PathStr ''/r'') (NTree 0 [NTree 1 [NTree 2 []]])"
    by (simp add: example_tree_nodes)
  have n1: "2 \<in> set (tree_nodes (NTree 0 [NTree 1 [NTree 2 []]]))" by simp
  have h1: "height (NTree 0 [NTree 1 [NTree 2 []]]) \<le> 3" by simp
  from C7_mkTree_preorder[OF w1 n1 h1, of posix example_fs]
  have "mkTree 3 posix example_tree 2 example_fs =
    run_actions posix example_tree (spec_actions example_tree (NTree 0 [NTree 1 [NTree 2 []]])) example_fs"
    by blast
  then have r1: "mkTree 3 posix example_tree 2 example_fs =
     Some (Inr (),
       \<lparr>fs_dirs = {[''r'', ''a'', ''b'', ''c''], [''r'', ''a'', ''b''], [''r'', ''a''], [''r'']},
        fs_files = [[''r'', ''a'', ''f''] \<mapsto> ''x'', [''r'', ''a'', ''b'', ''c'', ''g''] \<mapsto> ''y'']\<rparr>)"
    by (simp add: example_tree_nodes example_tree_paths example_run_simps)
  have w2: "wf_tree example_clash (PathStr ''/r'') (NTree 0 [NTree 1 []])"
    by (simp add: example_clash_nodes)
  have n2: "1 \<in> set (tree_nodes (NTree 0 [NTree 1 []]))" by simp
  have h2: "height (NTree 0 [NTree 1 []]) \<le> 2" by simp
  have a2: "spec_actions example_clash (NTree 0 [NTree 1 []]) =
      [MkDir 0, CreateFile 0 ''b''] @ MkDir 1 # []"
    by (simp add: example_clash_nodes)
  have b2: "run_actions posix example_clash [MkDir 0, CreateFile 0 ''b''] example_fs =
     Some (Inr (), \<lparr>fs_dirs = {[''r'', ''a''], [''r'']}, fs_files = [[''r'', ''a'', ''b''] \<mapsto> ''x'']\<rparr>)"
    by (simp add: example_clash_nodes example_clash_paths example_run_simps)
  have c2: "run_action posix example_clash (MkDir 1)
       \<lparr>fs_dirs = {[''r'', ''a''], [''r'']}, fs_files = [[''r'', ''a'', ''b''] \<mapsto> ''x'']\<rparr> =
     Some (Inl (FileExistsError ''/r/a/b/''),
       \<lparr>fs_dirs = {[''r'', ''a''], [''r'']}, fs_files = [[''r'', ''a'', ''b''] \<mapsto> ''x'']\<rparr>)"
    by (simp add: example_clash_nodes example_clash_paths example_run_simps)
  from C7_mkTree_preorder[OF w2 n2 h2, of posix example_fs] a2 b2 c2
  have r2: "mkTree 2 posix example_clash 1 example_fs =
     Some (Inl (FileExistsError ''/r/a/b/''),
       \<lparr>fs_dirs = {[''r'', ''a''], [''r'']}, fs_files = [[''r'', ''a'', ''b''] \<mapsto> ''x'']\<rparr>)"
    by blast
  from w1 n1 h1 r1 w2 n2 h2 a2 b2 c2 r2 show ?thesis by blast
qed

section \<open>Creating the directories twice\<close>

lemma for_each_invariant:
  assumes "for_each body xs fs = Some (Inr (), fs')" and "P fs"
    and "\<And>x fs fs'. body x fs = Some (Inr (), fs') \<Longrightarrow> P fs \<Longrightarrow> P fs'"
  shows "P fs'"
  using assms(1,2)
proof (induction xs arbitrary: fs)
  case Nil
  then show ?case by simp
next
  case (Cons x xs)
  from Cons.prems(1) obtain fs1 where 1: "body x fs = Some (Inr (), fs1)"
    and 2: "for_each body xs fs1 = Some (Inr (), fs')"
    by (auto split: option.splits sum.splits prod.splits)
  from assms(3)[OF 1 Cons.prems(2)] have "P fs1" .
  from Cons.IH[OF 2 this] show ?case .
qed

lemma mkdir_rec_preserves:
  assumes env: "mkdir_exclusive os"
  shows "mkdir_rec k os s r fs = Some (Inr (), fs') \<Longrightarrow> os_path_exists os q fs \<Longrightarrow>
     os_path_exists os q fs'"
proof (induction k arbitrary: r fs fs')
  case 0
  then show ?case by simp
next
  case (Suc k)
  from Suc.prems(1) obtain d fs1 xs where d: "get_path s r = Some d"
    and mk: "os_mkdir os d fs = (Inr (), fs1)"
    and kids: "for_each (mkdir_rec k os s) xs fs1 = Some (Inr (), fs')"
    by (auto split: option.splits sum.splits prod.splits)
  from env mk Suc.prems(2) have "os_path_exists os q fs1"
    unfolding mkdir_exclusive_def by blast
  from for_each_invariant[where P = "os_path_exists os q", OF kids this] Suc.IH
  show ?case by blast
qed

lemma posix_mkdir_exclusive: "mkdir_exclusive posix"
  unfolding mkdir_exclusive_def
  by (auto simp: posix_def posix_mkdir_def posix_path_exists_def is_dir_def is_file_def Let_def
      split: if_splits)

text \<open>
  Claim C8. On an operating system whose \<^verbatim>\<open>os.mkdir\<close> rejects an existing path, when a
  call of \<^verbatim>\<open>mkdir\<close> has returned normally, a second call on the file system it left
  raises \<^verbatim>\<open>FileExistsError\<close> for the directory of the root, and changes nothing.
\<close>

theorem C8_mkdir_twice_fails:
  assumes "mkdir_exclusive os" and "mkdir k os s n fs = Some (Inr (), fs')"
  shows "\<exists>r d. get_root s n = Some r \<and> get_path s r = Some d \<and>
     mkdir k os s n fs' = Some (Inl (FileExistsError d), fs')"
proof -
  from assms(2) obtain r where r: "get_root s n = Some r"
    and run: "mkdir_rec k os s r fs = Some (Inr (), fs')"
    by (auto simp: mkdir_def split: option.splits)
  from run obtain k' where k: "k = Suc k'" by (cases k) auto
  from run k obtain d fs1 xs where d: "get_path s r = Some d"
    and mk: "os_mkdir os d fs = (Inr (), fs1)"
    and kids: "for_each (mkdir_rec k' os s) xs fs1 = Some (Inr (), fs')"
    by (auto split: option.splits sum.splits prod.splits)
  from assms(1) mk have "os_path_exists os d fs1"
    unfolding mkdir_exclusive_def by blast
  from for_each_invariant[where P = "os_path_exists os d", OF kids this]
    mkdir_rec_preserves[OF assms(1)]
  have "os_path_exists os d fs'" by blast
  with assms(1) have "os_mkdir os d fs' = (Inl (FileExistsError d), fs')"
    unfolding mkdir_exclusive_def by blast
  with r d k show ?thesis by (simp add: mkdir_def)
qed

theorem C8_mkdir_twice_fails_witness:
  "mkdir_exclusive posix \<and>
   mkdir 3 posix example_tree 2 example_fs =
     Some (Inr (),
       \<lparr>fs_dirs = {[''r'', ''a'', ''b'', ''c''], [''r'', ''a'', ''b''], [''r'', ''a''], [''r'']},
        fs_files = (\<lambda>c. None)\<rparr>) \<and>
   get_root example_tree 2 = Some 0 \<and> get_path example_tree 0 = Some ''/r/a/'' \<and>
   mkdir 3 posix example_tree 2
       \<lparr>fs_dirs = {[''r'', ''a'', ''b'', ''c''], [''r'', ''a'', ''b''], [''r'', ''a''], [''r'']},
        fs_files = (\<lambda>c. None)\<rparr> =
     Some (Inl (FileExistsError ''/r/a/''),
       \<lparr>fs_dirs = {[''r'', ''a'', ''b'', ''c''], [''r'', ''a'', ''b''], [''r'', ''a''], [''r'']},
        fs_files = (\<lambda>c. None)\<rparr>)"
proof -
  note env = posix_mkdir_exclusive
  have root: "get_root example_tree 2 = Some 0"
    using parent_chain_root[OF example_tree_chain] by simp
  have first: "mkdir 3 posix example_tree 2 example_fs =
     Some (Inr (),
       \<lparr>fs_dirs = {[''r'', ''a'', ''b'', ''c''], [''r'', ''a'', ''b''], [''r'', ''a''], [''r'']},
        fs_files = (\<lambda>c. None)\<rparr>)"
    by (simp add: mkdir_def root numeral_3_eq_3 example_tree_nodes example_tree_paths example_run_simps)
  from C8_mkdir_twice_fails[OF env first] obtain r d where
    "get_root example_tree 2 = Some r" "get_path example_tree r = Some d"
    "mkdir 3 posix example_tree 2
       \<lparr>fs_dirs = {[''r'', ''a'', ''b'', ''c''], [''r'', ''a'', ''b''], [''r'', ''a''], [''r'']},
        fs_files = (\<lambda>c. None)\<rparr> =
     Some (Inl (FileExistsError d),
       \<lparr>fs_dirs = {[''r'', ''a'', ''b'', ''c''], [''r'', ''a'', ''b''], [''r'', ''a''], [''r'']},
        fs_files = (\<lambda>c. None)\<rparr>)" by blast
  with root have second: "get_path example_tree 0 = Some ''/r/a/'' \<and> mkdir 3 posix example_tree 2
       \<lparr>fs_dirs = {[''r'', ''a'', ''b'', ''c''], [''r'', ''a'', ''b''], [''r'', ''a''], [''r'']},
        fs_files = (\<lambda>c. None)\<rparr> =
     Some (Inl (FileExistsError ''/r/a/''),
       \<lparr>fs_dirs = {[''r'', ''a'', ''b'', ''c''], [''r'', ''a'', ''b''], [''r'', ''a''], [''r'']},
        fs_files = (\<lambda>c. None)\<rparr>)"
    by (simp add: example_tree_paths)
  from env first root second show ?thesis by blast
qed

end
